theory Spec2Isabelle
  imports Complex_Main "HOL-Library.Sublist"
begin

section \<open>JavaScript values\<close>

text \<open>
  The response normalizer of \<^verbatim>\<open>services/gemini.ts\<close> works on untyped data: the result of
  \<^verbatim>\<open>JSON.parse\<close> is cast to \<^verbatim>\<open>GeminiSummaryResponse\<close> without any check, so every field
  may hold any JSON value. Values are therefore modelled dynamically. \<open>Undefined\<close> is
  what reading a missing property gives; it never occurs inside a parsed value. An
  object is the list of its properties in their order; in a parsed object the names
  are distinct.

  Numbers are exact rationals: every finite double is one, and the infinities that a
  literal out of the range of the doubles gives are left out. Strings are lists of
  8-bit characters, read as the code units U+0000 to U+00FF; \<^verbatim>\<open>trim\<close>, \<^verbatim>\<open>\s\<close> and
  \<^verbatim>\<open>toLowerCase\<close> are modelled on that range.
\<close>

datatype jsval =
    Undefined
  | Null
  | Bool bool
  | Num rat
  | Str string
  | Arr "jsval list"
  | Obj "(string \<times> jsval) list"

datatype error =
    NetworkError
  | HttpError
  | ApiError
  | NoCandidates
  | Truncated
  | NoContent
  | NoParts
  | ExtractionFailed jsval
  | NoJsonFound
  | IncompleteJson
  | ParseFailed
  | TypeError

text \<open>Sequencing of fallible steps: the first \<^verbatim>\<open>throw\<close> ends the computation.\<close>

definition andThen :: "error + 'a \<Rightarrow> ('a \<Rightarrow> error + 'b) \<Rightarrow> error + 'b" where
  "andThen r f = (case r of Inl e \<Rightarrow> Inl e | Inr v \<Rightarrow> f v)"

text \<open>\<^verbatim>\<open>!!v\<close>: the falsy values are undefined, null, false, 0 and the empty string.\<close>

fun truthy :: "jsval \<Rightarrow> bool" where
  "truthy Undefined = False"
| "truthy Null = False"
| "truthy (Bool b) = b"
| "truthy (Num x) = (x \<noteq> 0)"
| "truthy (Str s) = (s \<noteq> [])"
| "truthy (Arr xs) = True"
| "truthy (Obj kvs) = True"

fun isArray :: "jsval \<Rightarrow> bool" where
  "isArray (Arr xs) = True"
| "isArray v = False"

text \<open>\<^verbatim>\<open>a ?? b\<close>\<close>

fun nullish :: "jsval \<Rightarrow> bool" where
  "nullish Undefined = True"
| "nullish Null = True"
| "nullish v = False"

text \<open>
  \<^verbatim>\<open>v.k\<close> for the property names the code reads. Reading a property of null or
  undefined throws a TypeError. Strings and arrays have \<^verbatim>\<open>length\<close>; no other name
  read by the code exists on a primitive or on an array.
\<close>

fun getProp :: "jsval \<Rightarrow> string \<Rightarrow> error + jsval" where
  "getProp Undefined k = Inl TypeError"
| "getProp Null k = Inl TypeError"
| "getProp (Obj kvs) k = Inr (case map_of kvs k of Some v \<Rightarrow> v | None \<Rightarrow> Undefined)"
| "getProp (Str s) k = Inr (if k = ''length'' then Num (of_nat (length s)) else Undefined)"
| "getProp (Arr xs) k = Inr (if k = ''length'' then Num (of_nat (length xs)) else Undefined)"
| "getProp (Bool b) k = Inr Undefined"
| "getProp (Num x) k = Inr Undefined"

text \<open>The same read where the receiver is known not to be null or undefined.\<close>

definition field :: "jsval \<Rightarrow> string \<Rightarrow> jsval" where
  "field v k = (case getProp v k of Inr x \<Rightarrow> x | Inl e \<Rightarrow> Undefined)"

text \<open>\<^verbatim>\<open>v[0]\<close>\<close>

fun index0 :: "jsval \<Rightarrow> error + jsval" where
  "index0 Undefined = Inl TypeError"
| "index0 Null = Inl TypeError"
| "index0 (Arr xs) = Inr (case xs of [] \<Rightarrow> Undefined | x # rest \<Rightarrow> x)"
| "index0 (Str s) = Inr (case s of [] \<Rightarrow> Undefined | c # rest \<Rightarrow> Str [c])"
| "index0 (Obj kvs) = Inr (case map_of kvs ''0'' of Some v \<Rightarrow> v | None \<Rightarrow> Undefined)"
| "index0 (Bool b) = Inr Undefined"
| "index0 (Num x) = Inr Undefined"

section \<open>Strings\<close>

text \<open>
  White space of \<^verbatim>\<open>\s\<close> and \<^verbatim>\<open>trim()\<close> below U+0100: tab, line feed, vertical tab,
  form feed, carriage return, space and no-break space.
\<close>

definition isWhitespace :: "char \<Rightarrow> bool" where
  "isWhitespace c = (c \<in> set [CHR 0x09, CHR 0x0A, CHR 0x0B, CHR 0x0C, CHR 0x0D, CHR 0x20, CHR 0xA0])"

definition trim :: "string \<Rightarrow> string" where
  "trim s = rev (dropWhile isWhitespace (rev (dropWhile isWhitespace s)))"

text \<open>
  \<^verbatim>\<open>toLowerCase\<close> below U+0100: A to Z, and the Latin-1 capitals U+00C0 to U+00DE
  except the multiplication sign U+00D7, move up by 32.
\<close>

definition toLowerChar :: "char \<Rightarrow> char" where
  "toLowerChar c =
     (let n = (of_char c :: nat)
      in if 65 \<le> n \<and> n \<le> 90 then char_of (n + 32)
         else if n = 215 then c
         else if 192 \<le> n \<and> n \<le> 222 then char_of (n + 32)
         else c)"

definition toLowerCase :: "string \<Rightarrow> string" where
  "toLowerCase s = map toLowerChar s"

text \<open>\<^verbatim>\<open>s.includes(kw)\<close>: \<open>kw\<close> occurs in \<open>s\<close> as a contiguous substring.\<close>

fun includesStr :: "string \<Rightarrow> string \<Rightarrow> bool" where
  "includesStr [] kw = (kw = [])"
| "includesStr (c # cs) kw = (prefix kw (c # cs) \<or> includesStr cs kw)"

text \<open>\<^verbatim>\<open>s.indexOf(c)\<close>, with \<open>None\<close> for -1.\<close>

fun indexOf :: "string \<Rightarrow> char \<Rightarrow> nat option" where
  "indexOf [] c = None"
| "indexOf (x # xs) c = (if x = c then Some 0 else map_option Suc (indexOf xs c))"

text \<open>\<^verbatim>\<open>s.substring(a, b)\<close> for \<open>a \<le> b\<close>.\<close>

definition substring :: "string \<Rightarrow> nat \<Rightarrow> nat \<Rightarrow> string" where
  "substring s a b = take (b - a) (drop a s)"

section \<open>Locating the JSON object in the model's text\<close>

text \<open>
  \<^verbatim>\<open>jsonText.replace(/^```json\s*/i, "")\<close> and \<^verbatim>\<open>jsonText.replace(/^```\s*/i, "")\<close>:
  without the \<^verbatim>\<open>m\<close> flag \<^verbatim>\<open>^\<close> is the start of the text. The marker is given in
  lower case.
\<close>

definition stripFenceStart :: "string \<Rightarrow> string \<Rightarrow> string" where
  "stripFenceStart marker s =
     (if toLowerCase (take (length marker) s) = marker
      then dropWhile isWhitespace (drop (length marker) s) else s)"

text \<open>
  \<^verbatim>\<open>jsonText.replace(/\s*```$/m, "")\<close> removes the leftmost match only. A match that
  starts at a given position takes the whole run of white space there (a shorter run
  is followed by white space, not by a backquote), then three backquotes, then the end
  of a line: the end of the text, or with the \<^verbatim>\<open>m\<close> flag a line terminator.
\<close>

definition atLineEnd :: "bool \<Rightarrow> string \<Rightarrow> bool" where
  "atLineEnd multiline r =
     (case r of [] \<Rightarrow> True | c # rest \<Rightarrow> multiline \<and> (c = CHR 0x0A \<or> c = CHR 0x0D))"

definition fenceEndAt :: "bool \<Rightarrow> string \<Rightarrow> nat option" where
  "fenceEndAt multiline s =
     (let r = dropWhile isWhitespace s
      in if take 3 r = ''```'' \<and> atLineEnd multiline (drop 3 r)
         then Some (length (takeWhile isWhitespace s) + 3) else None)"

fun stripFenceEnd :: "bool \<Rightarrow> string \<Rightarrow> string" where
  "stripFenceEnd multiline [] = []"
| "stripFenceEnd multiline (c # cs) =
     (case fenceEndAt multiline (c # cs) of
        Some n \<Rightarrow> drop n (c # cs)
      | None \<Rightarrow> c # stripFenceEnd multiline cs)"

text \<open>
  The loop \<^verbatim>\<open>for (let i = firstBrace; i < jsonText.length; i++)\<close>: the first argument
  is the text from position \<open>i\<close> on. Every brace counts, also inside a string
  literal. The result is \<^verbatim>\<open>lastBrace\<close>, \<open>None\<close> for -1.
\<close>

fun scanBraces :: "string \<Rightarrow> nat \<Rightarrow> int \<Rightarrow> nat option" where
  "scanBraces [] i braceCount = None"
| "scanBraces (c # cs) i braceCount =
     (let opened = (if c = CHR ''{'' then braceCount + 1 else braceCount)
      in if c = CHR ''}''
         then (if opened - 1 = 0 then Some i else scanBraces cs (i + 1) (opened - 1))
         else scanBraces cs (i + 1) opened)"

text \<open>Lines 270 to 272: the fences are removed.\<close>

definition stripFences :: "string \<Rightarrow> string" where
  "stripFences responseText =
     (let jsonText = stripFenceEnd True (stripFenceStart ''```json'' responseText)
      in stripFenceEnd True (stripFenceStart ''```'' jsonText))"

text \<open>Lines 274 to 298: from the first opening brace to the brace that closes it.\<close>

definition balancedObject :: "string \<Rightarrow> error + string" where
  "balancedObject jsonText =
     (case indexOf jsonText (CHR ''{'') of
        None \<Rightarrow> Inl NoJsonFound
      | Some firstBrace \<Rightarrow>
          (case scanBraces (drop firstBrace jsonText) firstBrace 0 of
             None \<Rightarrow> Inl IncompleteJson
           | Some lastBrace \<Rightarrow>
               if lastBrace \<le> firstBrace then Inl IncompleteJson
               else Inr (substring jsonText firstBrace (lastBrace + 1))))"

definition extractJsonText :: "string \<Rightarrow> error + string" where
  "extractJsonText responseText = balancedObject (stripFences responseText)"

section \<open>The completion client: finding the generated text in the response\<close>

text \<open>
  The request itself is the platform's: \<^verbatim>\<open>fetch\<close> rejects, or the status is not ok, or
  the body is not JSON, or the body parses to \<^verbatim>\<open>data\<close>.
\<close>

datatype httpResponse = Rejected | NotOk | NoJsonBody | Body jsval

text \<open>
  \<^verbatim>\<open>responseText\<close> of \<^verbatim>\<open>processDischargeSummary\<close> and \<^verbatim>\<open>gradeQuizAnswer\<close> is either a value
  read from the response, or \<^verbatim>\<open>JSON.stringify\<close> of a part of the response. The second
  is kept symbolic: \<open>Stringified v\<close> stands for the text \<^verbatim>\<open>JSON.stringify(v)\<close>, which is
  never empty and which \<^verbatim>\<open>JSON.parse\<close> turns back into \<open>v\<close>.
\<close>

datatype responseText = Value jsval | Stringified jsval

text \<open>\<^verbatim>\<open>v.trim()\<close>: only a string has the method.\<close>

definition trimCall :: "jsval \<Rightarrow> error + jsval" where
  "trimCall v = (case v of Str s \<Rightarrow> Inr (Str (trim s)) | _ \<Rightarrow> Inl TypeError)"

text \<open>
  \<^verbatim>\<open>v > 0\<close> converts \<open>v\<close> to a number first. A number is compared as it is, true
  is 1, false and null are 0, undefined is NaN, and no comparison with NaN holds. A
  string, an array or an object is converted by the platform (the text of the string
  or of the joined array is read as a numeric literal; an object whose own
  \<^verbatim>\<open>toString\<close> property is present, hence not a function, throws a TypeError): that
  conversion is the parameter \<open>toNumber\<close>.
\<close>

datatype number = NaN | Finite rat | PlusInfinity | MinusInfinity

fun positive :: "number \<Rightarrow> bool" where
  "positive (Finite x) = (0 < x)"
| "positive PlusInfinity = True"
| "positive n = False"

fun greaterThanZero :: "(jsval \<Rightarrow> error + number) \<Rightarrow> jsval \<Rightarrow> error + bool" where
  "greaterThanZero toNumber (Num x) = Inr (0 < x)"
| "greaterThanZero toNumber (Bool b) = Inr b"
| "greaterThanZero toNumber Undefined = Inr False"
| "greaterThanZero toNumber Null = Inr False"
| "greaterThanZero toNumber v = map_sum id positive (toNumber v)"

text \<open>\<^verbatim>\<open>candidate.content.parts && candidate.content.parts.length > 0\<close>, line 226.\<close>

definition hasParts :: "(jsval \<Rightarrow> error + number) \<Rightarrow> jsval \<Rightarrow> error + bool" where
  "hasParts toNumber content =
     (let parts = field content ''parts''
      in if truthy parts then greaterThanZero toNumber (field parts ''length'')
         else Inr False)"

text \<open>\<^verbatim>\<open>!responseText || responseText.length === 0\<close>\<close>

fun isEmptyText :: "responseText \<Rightarrow> bool" where
  "isEmptyText (Value v) = (if truthy v then field v ''length'' = Num 0 else True)"
| "isEmptyText (Stringified v) = False"

text \<open>
  Lines 195 to 262 of \<^verbatim>\<open>processDischargeSummary\<close>, from the parsed response body
  \<^verbatim>\<open>data\<close> to \<^verbatim>\<open>responseText\<close>.
\<close>

definition extractResponseText ::
  "(jsval \<Rightarrow> error + number) \<Rightarrow> jsval \<Rightarrow> error + responseText" where
  "extractResponseText toNumber data =
     andThen (getProp data ''error'') (\<lambda>err.
     if truthy err then Inl ApiError
     else let candidates = field data ''candidates''
     in if (if truthy candidates then field candidates ''length'' = Num 0 else True)
        then Inl NoCandidates
     else
     andThen (index0 candidates) (\<lambda>candidate.
     andThen (getProp candidate ''finishReason'') (\<lambda>finishReason.
     if finishReason = Str ''MAX_TOKENS'' then Inl Truncated
     else let content = field candidate ''content''
     in if truthy content then
       (let parts = field content ''parts''
        in andThen
          (andThen (hasParts toNumber content) (\<lambda>withParts.
           if withParts
           then
             andThen (index0 parts) (\<lambda>part.
             andThen (getProp part ''text'') (\<lambda>text.
             if truthy text then map_sum id Value (trimCall text)
             else if truthy (field part ''inlineData'')
             then Inr (Value (field (field part ''inlineData'') ''data''))
             else Inr (Stringified part)))
           else if truthy (field candidate ''text'')
             then map_sum id Value (trimCall (field candidate ''text''))
           else if truthy (field data ''text'')
             then map_sum id Value (trimCall (field data ''text''))
           else Inr (Stringified data)))
          (\<lambda>responseText.
             if isEmptyText responseText then Inl (ExtractionFailed data)
             else Inr responseText))
     else Inl NoContent)))"

text \<open>
  The candidate and the content part that these lines look at, for stating what they
  do: \<^verbatim>\<open>data.candidates[0]\<close> and \<^verbatim>\<open>candidate.content.parts[0]\<close>, undefined where the
  read is not possible.
\<close>

definition firstCandidate :: "jsval \<Rightarrow> jsval" where
  "firstCandidate data =
     (case index0 (field data ''candidates'') of Inr c \<Rightarrow> c | Inl e \<Rightarrow> Undefined)"

definition firstPart :: "jsval \<Rightarrow> jsval" where
  "firstPart data =
     (case index0 (field (field (firstCandidate data) ''content'') ''parts'') of
        Inr p \<Rightarrow> p
      | Inl e \<Rightarrow> Undefined)"

text \<open>
  The checks of lines 195 to 219 all pass: the body is an object without error
  payload, it has a first candidate, the generation was not cut off at the token limit
  and the candidate has a content.
\<close>

definition earlierChecksPass :: "jsval \<Rightarrow> bool" where
  "earlierChecksPass data =
     (\<not> nullish data
      \<and> \<not> truthy (field data ''error'')
      \<and> truthy (field data ''candidates'')
      \<and> field (field data ''candidates'') ''length'' \<noteq> Num 0
      \<and> \<not> nullish (firstCandidate data)
      \<and> field (firstCandidate data) ''finishReason'' \<noteq> Str ''MAX_TOKENS''
      \<and> truthy (field (firstCandidate data) ''content''))"

text \<open>
  The conversion on the one value that the examples below have converted: the string
  "1" is the number 1. Everywhere else in the examples the length is a number and no
  conversion takes place.
\<close>

definition exampleConversion :: "jsval \<Rightarrow> error + number" where
  "exampleConversion v = (if v = Str ''1'' then Inr (Finite 1) else Inr NaN)"

section \<open>The response normalizer\<close>

record quizQuestion =
  qid :: jsval
  question :: jsval
  options :: "jsval list"
  correctOptionIndexes :: "jsval list"
  category :: jsval
  explanation :: jsval
  weight :: jsval

record pediatricSummary =
  simpleExplanation :: jsval
  whatToDo :: "jsval list"
  whatNotToDo :: "jsval list"
  redFlags :: "jsval list"
  medications :: "jsval list"
  followUp :: "jsval list"
  expectedCourse :: jsval
  quizQuestions :: "quizQuestion list option"

text \<open>\<^verbatim>\<open>Array.isArray(v) ? v : []\<close>\<close>

fun arrayOrEmpty :: "jsval \<Rightarrow> jsval list" where
  "arrayOrEmpty (Arr xs) = xs"
| "arrayOrEmpty v = []"

text \<open>\<^verbatim>\<open>v || d\<close>\<close>

definition orElse :: "jsval \<Rightarrow> jsval \<Rightarrow> jsval" where
  "orElse v d = (if truthy v then v else d)"

definition defaultExplanation :: string where
  "defaultExplanation =
     ''The discharge summary was processed, but no explanation could be extracted.''"

definition defaultCourse :: string where
  "defaultCourse =
     ''The discharge summary does not specify what to expect over the next few days.''"

text \<open>Lines 316 to 324: the summary before the quiz questions are attached.\<close>

definition coerceSummary :: "jsval \<Rightarrow> pediatricSummary" where
  "coerceSummary parsed =
     \<lparr> simpleExplanation = orElse (field parsed ''simpleExplanation'') (Str defaultExplanation),
       whatToDo = arrayOrEmpty (field parsed ''whatToDo''),
       whatNotToDo = arrayOrEmpty (field parsed ''whatNotToDo''),
       redFlags = arrayOrEmpty (field parsed ''redFlags''),
       medications = arrayOrEmpty (field parsed ''medications''),
       followUp = arrayOrEmpty (field parsed ''followUp''),
       expectedCourse = orElse (field parsed ''expectedCourse'') (Str defaultCourse),
       quizQuestions = None \<rparr>"

section \<open>The quiz sanitizer\<close>

text \<open>\<^verbatim>\<open>xs.filter(p)\<close> and \<^verbatim>\<open>xs.map(f)\<close> with a callback that may throw.\<close>

fun filterE :: "('a \<Rightarrow> error + bool) \<Rightarrow> 'a list \<Rightarrow> error + 'a list" where
  "filterE p [] = Inr []"
| "filterE p (x # xs) =
     andThen (p x) (\<lambda>keep.
     andThen (filterE p xs) (\<lambda>rest.
     Inr (if keep then x # rest else rest)))"

fun mapE :: "('a \<Rightarrow> error + 'b) \<Rightarrow> 'a list \<Rightarrow> error + 'b list" where
  "mapE f [] = Inr []"
| "mapE f (x # xs) =
     andThen (f x) (\<lambda>y.
     andThen (mapE f xs) (\<lambda>ys.
     Inr (y # ys)))"

definition metaOptions :: "string list" where
  "metaOptions =
     [''all of the above'',
      ''none of the above'',
      ''all of the options above'',
      ''none of the options above'',
      ''a and b'',
      ''a and b only'',
      ''both a and b'']"

text \<open>
  The callback of \<^verbatim>\<open>q.options.filter\<close>. A truthy option that is not a string has no
  \<^verbatim>\<open>trim\<close> method: the call throws.
\<close>

definition keepOption :: "jsval \<Rightarrow> error + bool" where
  "keepOption opt =
     (if truthy opt then
        (case opt of
           Str s \<Rightarrow>
             (let t = toLowerCase (trim s)
              in if t = [] then Inr False else Inr (t \<notin> set metaOptions))
         | _ \<Rightarrow> Inl TypeError)
      else Inr False)"

text \<open>\<^verbatim>\<open>Number.isInteger(idx) && idx >= 0 && idx <= maxIndex\<close>\<close>

definition validIndex :: "int \<Rightarrow> jsval \<Rightarrow> bool" where
  "validIndex maxIndex idx =
     (case idx of
        Num x \<Rightarrow> of_int \<lfloor>x\<rfloor> = x \<and> 0 \<le> x \<and> x \<le> of_int maxIndex
      | _ \<Rightarrow> False)"

text \<open>
  \<^verbatim>\<open>Array.from(new Set(xs))\<close>: the elements in the order of their first occurrence.
\<close>

definition arrayFromSet :: "'a list \<Rightarrow> 'a list" where
  "arrayFromSet xs = foldl (\<lambda>seen x. if x \<in> set seen then seen else seen @ [x]) [] xs"

text \<open>
  \<^verbatim>\<open>(q.correctOptionIndexes || []).filter(...)\<close>: of the truthy values only an array
  has \<^verbatim>\<open>filter\<close>.
\<close>

definition indexCandidates :: "jsval \<Rightarrow> error + jsval list" where
  "indexCandidates v =
     (if truthy v then (case v of Arr xs \<Rightarrow> Inr xs | _ \<Rightarrow> Inl TypeError) else Inr [])"

definition defaultWeight :: "jsval \<Rightarrow> rat" where
  "defaultWeight cat =
     (if cat = Str ''redFlag'' then 30
      else if cat = Str ''medication'' then 25
      else if cat = Str ''followUp'' then 20
      else 15)"

text \<open>\<^verbatim>\<open>v.slice(0, n)\<close>: strings and arrays have the method.\<close>

definition sliceCall :: "jsval \<Rightarrow> nat \<Rightarrow> error + jsval" where
  "sliceCall v n =
     (case v of
        Str s \<Rightarrow> Inr (Str (take n s))
      | Arr xs \<Rightarrow> Inr (Arr (take n xs))
      | _ \<Rightarrow> Inl TypeError)"

text \<open>The callback of \<^verbatim>\<open>parsed.quizQuestions.filter\<close>.\<close>

definition acceptsQuestion :: "jsval \<Rightarrow> bool" where
  "acceptsQuestion q =
     (truthy q \<and> truthy (field q ''question'') \<and> isArray (field q ''options'')
      \<and> 2 \<le> length (arrayOrEmpty (field q ''options'')))"

text \<open>The callback of \<^verbatim>\<open>.map\<close>, lines 330 to 385.\<close>

definition sanitizeQuestion :: "jsval \<Rightarrow> error + quizQuestion" where
  "sanitizeQuestion q =
     andThen (filterE keepOption (arrayOrEmpty (field q ''options''))) (\<lambda>cleanedOptions.
     let opts = take 4 cleanedOptions;
         maxIndex = int (length opts) - 1
     in
     andThen (indexCandidates (field q ''correctOptionIndexes'')) (\<lambda>candidates.
     let uniqueCorrectIndexes = arrayFromSet (filter (validIndex maxIndex) candidates);
         w = (case field q ''weight'' of
                Num x \<Rightarrow> Num x
              | _ \<Rightarrow> Num (defaultWeight (field q ''category'')))
     in
     andThen (if truthy (field q ''id'') then Inr (field q ''id'')
              else sliceCall (field q ''question'') 32) (\<lambda>i.
     Inr \<lparr> qid = i,
           question = field q ''question'',
           options = opts,
           correctOptionIndexes =
             (if uniqueCorrectIndexes = [] then [Num 0] else uniqueCorrectIndexes),
           category = (if nullish (field q ''category'') then Str ''care''
                       else field q ''category''),
           explanation = field q ''explanation'',
           weight = w \<rparr>)))"

definition sanitizeQuiz :: "jsval list \<Rightarrow> error + quizQuestion list" where
  "sanitizeQuiz qs = mapE sanitizeQuestion (filter acceptsQuestion qs)"

text \<open>Lines 315 to 388: from the parsed object to the returned summary.\<close>

definition normalizeParsed :: "jsval \<Rightarrow> error + pediatricSummary" where
  "normalizeParsed parsed =
     (let summary = coerceSummary parsed
      in if isArray (field parsed ''quizQuestions'')
         then andThen (sanitizeQuiz (arrayOrEmpty (field parsed ''quizQuestions'')))
                (\<lambda>qs. Inr (summary\<lparr>quizQuestions := Some qs\<rparr>))
         else Inr summary)"

text \<open>
  The whole of \<^verbatim>\<open>processDischargeSummary\<close>. \<^verbatim>\<open>JSON.parse\<close> and \<^verbatim>\<open>JSON.stringify\<close> are the
  platform's and are parameters, like \<open>toNumber\<close>, \<open>parse\<close> giving \<open>None\<close> when it
  throws. A response
  text that is not a string has no \<^verbatim>\<open>substring\<close> method (line 265). Every error is
  thrown again by the outer \<^verbatim>\<open>catch\<close>, with a prefix added to its message.
\<close>

definition processDischargeSummary ::
  "(string \<Rightarrow> jsval option) \<Rightarrow> (jsval \<Rightarrow> string) \<Rightarrow> (jsval \<Rightarrow> error + number)
     \<Rightarrow> httpResponse \<Rightarrow> error + pediatricSummary" where
  "processDischargeSummary parse stringify toNumber response =
     (case response of
        Rejected \<Rightarrow> Inl NetworkError
      | NotOk \<Rightarrow> Inl HttpError
      | NoJsonBody \<Rightarrow> Inl ParseFailed
      | Body data \<Rightarrow>
          andThen (extractResponseText toNumber data) (\<lambda>responseText.
          andThen (case responseText of
                     Stringified v \<Rightarrow> Inr (stringify v)
                   | Value (Str s) \<Rightarrow> Inr s
                   | Value v \<Rightarrow> Inl TypeError) (\<lambda>rawText.
          andThen (extractJsonText rawText) (\<lambda>jsonText.
          case parse jsonText of
            None \<Rightarrow> Inl ParseFailed
          | Some parsed \<Rightarrow> normalizeParsed parsed))))"

section \<open>Serializing a summary again\<close>

text \<open>
  The value that \<^verbatim>\<open>JSON.parse(JSON.stringify(summary))\<close> gives for a returned summary:
  every property of the object literals of lines 316 to 324 and 376 to 384 in their
  order, without those whose value is undefined, which \<^verbatim>\<open>JSON.stringify\<close> leaves out.
\<close>

definition definedProps :: "(string \<times> jsval) list \<Rightarrow> (string \<times> jsval) list" where
  "definedProps kvs = filter (\<lambda>kv. snd kv \<noteq> Undefined) kvs"

definition questionJson :: "quizQuestion \<Rightarrow> jsval" where
  "questionJson q =
     Obj (definedProps
       [(''id'', qid q),
        (''question'', question q),
        (''options'', Arr (options q)),
        (''correctOptionIndexes'', Arr (correctOptionIndexes q)),
        (''category'', category q),
        (''explanation'', explanation q),
        (''weight'', weight q)])"

definition summaryJson :: "pediatricSummary \<Rightarrow> jsval" where
  "summaryJson s =
     Obj (definedProps
       [(''simpleExplanation'', simpleExplanation s),
        (''whatToDo'', Arr (whatToDo s)),
        (''whatNotToDo'', Arr (whatNotToDo s)),
        (''redFlags'', Arr (redFlags s)),
        (''medications'', Arr (medications s)),
        (''followUp'', Arr (followUp s)),
        (''expectedCourse'', expectedCourse s)]
       @ (case quizQuestions s of
            None \<Rightarrow> []
          | Some qs \<Rightarrow> [(''quizQuestions'', Arr (map questionJson qs))]))"

text \<open>
  What the sanitizer establishes for a question it returns, and needs in order to
  return the same question when it reads it again.
\<close>

definition wellFormedQuestion :: "quizQuestion \<Rightarrow> bool" where
  "wellFormedQuestion q =
     (truthy (qid q) \<and> truthy (question q)
      \<and> list_all (\<lambda>opt. keepOption opt = Inr True) (options q)
      \<and> length (options q) \<le> 4
      \<and> (correctOptionIndexes q = [Num 0]
          \<or> (correctOptionIndexes q \<noteq> [] \<and> distinct (correctOptionIndexes q)
              \<and> list_all (validIndex (int (length (options q)) - 1)) (correctOptionIndexes q)))
      \<and> \<not> nullish (category q)
      \<and> (case weight q of Num w \<Rightarrow> True | _ \<Rightarrow> False))"

section \<open>The grading adapter\<close>

record gradeResult =
  isCorrect :: jsval
  feedback :: jsval

text \<open>
  \<^verbatim>\<open>s.split(/[;,\s]+/)\<close>: the pieces between the maximal runs of semicolons, commas and
  white space; a run at the start or at the end of the text leaves an empty piece
  there. \<open>cur\<close> is the piece being read, reversed, and \<open>inRun\<close> tells that the last
  character read was a separator.
\<close>

definition isSeparator :: "char \<Rightarrow> bool" where
  "isSeparator c = (c = CHR '';'' \<or> c = CHR '','' \<or> isWhitespace c)"

fun splitRuns :: "string \<Rightarrow> bool \<Rightarrow> string \<Rightarrow> string list" where
  "splitRuns cur inRun [] = [rev cur]"
| "splitRuns cur inRun (c # cs) =
     (if isSeparator c
      then (if inRun then splitRuns cur True cs else rev cur # splitRuns [] True cs)
      else splitRuns (c # cur) False cs)"

definition splitSeparators :: "string \<Rightarrow> string list" where
  "splitSeparators s = splitRuns [] False s"

text \<open>\<^verbatim>\<open>s.split(";")\<close> and \<^verbatim>\<open>xs.join(", ")\<close>\<close>

fun splitChar :: "char \<Rightarrow> string \<Rightarrow> string \<Rightarrow> string list" where
  "splitChar sep cur [] = [rev cur]"
| "splitChar sep cur (c # cs) =
     (if c = sep then rev cur # splitChar sep [] cs else splitChar sep (c # cur) cs)"

fun joinWith :: "string \<Rightarrow> string list \<Rightarrow> string" where
  "joinWith sep [] = []"
| "joinWith sep [x] = x"
| "joinWith sep (x # y # ys) = x @ sep @ joinWith sep (y # ys)"

text \<open>The \<^verbatim>\<open>catch\<close> block of \<^verbatim>\<open>gradeQuizAnswer\<close>, lines 510 to 526.\<close>

definition fallbackGrade :: "string \<Rightarrow> string \<Rightarrow> gradeResult" where
  "fallbackGrade correctAnswer userAnswer =
     (let keywords = splitSeparators (toLowerCase correctAnswer);
          answerLower = toLowerCase userAnswer;
          matchedKeywords = filter (\<lambda>kw. 3 < length kw \<and> includesStr answerLower kw) keywords;
          correct = (min 3 (rat_of_nat (length keywords) / 3)
                       \<le> rat_of_nat (length matchedKeywords))
      in \<lparr> isCorrect = Bool correct,
            feedback = Str
              (if correct then ''Great! You've correctly identified the key points.''
               else ''The key points to remember are: ''
                    @ joinWith '', '' (take 2 (splitChar (CHR '';'') [] correctAnswer))
                    @ ''. Try to include these in your answer.'') \<rparr>)"

text \<open>
  The \<^verbatim>\<open>try\<close> block of \<^verbatim>\<open>gradeQuizAnswer\<close>. Lines 459 to 491, from \<^verbatim>\<open>data\<close> to
  \<^verbatim>\<open>responseText\<close>:
\<close>

definition gradingResponseText :: "jsval \<Rightarrow> error + responseText" where
  "gradingResponseText data =
     andThen (getProp data ''error'') (\<lambda>err.
     if truthy err then Inl ApiError
     else let candidates = field data ''candidates''
     in if (if truthy candidates then field candidates ''length'' = Num 0 else True)
        then Inl NoCandidates
     else
     andThen (index0 candidates) (\<lambda>candidate.
     andThen (getProp candidate ''content'') (\<lambda>content.
     if truthy content then
       (let parts = field content ''parts''
        in if (if truthy parts then field parts ''length'' = Num 0 else True)
           then Inl NoParts
           else
             andThen (index0 parts) (\<lambda>part.
             andThen (getProp part ''text'') (\<lambda>text.
             if truthy text then map_sum id Value (trimCall text)
             else if truthy (field part ''inlineData'')
             then Inr (Value (field (field part ''inlineData'') ''data''))
             else Inr (Stringified data))))
     else Inl NoContent)))"

text \<open>
  Lines 493 to 504: the fences are removed (no flags here: \<^verbatim>\<open>$\<close> is the end of the
  text) and the text is parsed; \<open>parse\<close> is \<^verbatim>\<open>JSON.parse\<close> as above.
  \<^verbatim>\<open>startsWith\<close> exists on strings only. The serialized response starts with a brace,
  has no fence, and parses to the response.
\<close>

definition gradingJsonText :: "string \<Rightarrow> string" where
  "gradingJsonText s =
     (if prefix ''```json'' s
      then stripFenceEnd False (dropWhile isWhitespace (drop 7 s))
      else if prefix ''```'' s
      then stripFenceEnd False (dropWhile isWhitespace (drop 3 s))
      else s)"

definition parseGrading :: "(string \<Rightarrow> jsval option) \<Rightarrow> responseText \<Rightarrow> error + jsval" where
  "parseGrading parse responseText =
     (case responseText of
        Stringified v \<Rightarrow> Inr v
      | Value (Str s) \<Rightarrow>
          (case parse (gradingJsonText s) of None \<Rightarrow> Inl ParseFailed | Some v \<Rightarrow> Inr v)
      | Value v \<Rightarrow> Inl TypeError)"

definition remoteGrade :: "(string \<Rightarrow> jsval option) \<Rightarrow> httpResponse \<Rightarrow> error + gradeResult" where
  "remoteGrade parse response =
     (case response of
        Rejected \<Rightarrow> Inl NetworkError
      | NotOk \<Rightarrow> Inl HttpError
      | NoJsonBody \<Rightarrow> Inl ParseFailed
      | Body data \<Rightarrow>
          andThen (gradingResponseText data) (\<lambda>responseText.
          andThen (parseGrading parse responseText) (\<lambda>parsed.
          andThen (getProp parsed ''isCorrect'') (\<lambda>verdict.
          Inr \<lparr> isCorrect = (if nullish verdict then Bool False else verdict),
                feedback = orElse (field parsed ''feedback'')
                             (Str ''Thank you for your answer.'') \<rparr>))))"

definition gradeQuizAnswer ::
  "(string \<Rightarrow> jsval option) \<Rightarrow> httpResponse \<Rightarrow> string \<Rightarrow> string \<Rightarrow> gradeResult" where
  "gradeQuizAnswer parse response correctAnswer userAnswer =
     (case remoteGrade parse response of
        Inr result \<Rightarrow> result
      | Inl e \<Rightarrow> fallbackGrade correctAnswer userAnswer)"








section \<open>Auxiliary facts\<close>

lemma andThen_eq_Inr: "andThen r f = Inr y \<longleftrightarrow> (\<exists>v. r = Inr v \<and> f v = Inr y)"
  by (cases r) (simp_all add: andThen_def)

lemma filterE_Inr: "filterE p xs = Inr ys \<Longrightarrow> ys = filter (\<lambda>x. p x = Inr True) xs"
proof (induction xs arbitrary: ys)
  case Nil
  then show ?case by simp
next
  case (Cons x xs)
  from Cons.prems obtain keep rest
    where k: "p x = Inr keep" and r: "filterE p xs = Inr rest"
      and y: "ys = (if keep then x # rest else rest)"
    by (auto simp: andThen_eq_Inr)
  from Cons.IH [OF r] have "rest = filter (\<lambda>x. p x = Inr True) xs" .
  with k y show ?case by auto
qed

lemma keepOption_True:
  "keepOption opt = Inr True \<longleftrightarrow>
     (\<exists>s. opt = Str s \<and> toLowerCase (trim s) \<noteq> [] \<and> toLowerCase (trim s) \<notin> set metaOptions)"
  by (cases opt) (auto simp: keepOption_def Let_def trim_def toLowerCase_def)

lemma sanitizeQuestion_options:
  assumes "sanitizeQuestion q = Inr q'"
  shows "options q' =
           take 4 (filter (\<lambda>x. keepOption x = Inr True) (arrayOrEmpty (field q ''options'')))"
  using assms
  by (auto simp: sanitizeQuestion_def andThen_eq_Inr Let_def dest!: filterE_Inr)

lemma arrayFromSet_fold:
  "distinct seen \<Longrightarrow>
     distinct (foldl (\<lambda>seen x. if x \<in> set seen then seen else seen @ [x]) seen xs)
     \<and> set (foldl (\<lambda>seen x. if x \<in> set seen then seen else seen @ [x]) seen xs)
         = set seen \<union> set xs"
  by (induction xs arbitrary: seen) auto

lemma distinct_arrayFromSet: "distinct (arrayFromSet xs)"
  using arrayFromSet_fold [of "[]" xs] by (simp add: arrayFromSet_def)

lemma set_arrayFromSet: "set (arrayFromSet xs) = set xs"
  using arrayFromSet_fold [of "[]" xs] by (simp add: arrayFromSet_def)

lemma indexCandidates_Inr: "indexCandidates v = Inr xs \<Longrightarrow> xs = arrayOrEmpty v"
  by (cases v) (auto simp: indexCandidates_def split: if_splits)

lemma sanitizeQuestion_indexes:
  assumes "sanitizeQuestion q = Inr q'"
  shows "correctOptionIndexes q' =
           (let valid = arrayFromSet (filter (validIndex (int (length (options q')) - 1))
                          (arrayOrEmpty (field q ''correctOptionIndexes'')))
            in if valid = [] then [Num 0] else valid)"
proof -
  from assms obtain cleaned cands i where
    c: "indexCandidates (field q ''correctOptionIndexes'') = Inr cands"
    and o: "options q' = take 4 cleaned"
    and x: "correctOptionIndexes q' =
             (if arrayFromSet (filter (validIndex (int (length (take 4 cleaned)) - 1)) cands) = []
              then [Num 0]
              else arrayFromSet (filter (validIndex (int (length (take 4 cleaned)) - 1)) cands))"
    unfolding sanitizeQuestion_def andThen_eq_Inr Let_def by fastforce
  from indexCandidates_Inr [OF c] o x show ?thesis by (simp add: Let_def)
qed


lemma getProp_error: "getProp v k = Inl e \<Longrightarrow> e = TypeError"
  by (cases v) auto

lemma index0_error: "index0 v = Inl e \<Longrightarrow> e = TypeError"
  by (cases v) auto

lemma field_Obj: "field (Obj kvs) k = (case map_of kvs k of Some v \<Rightarrow> v | None \<Rightarrow> Undefined)"
  by (simp add: field_def)

lemma arrayOrEmpty_field:
  "arrayOrEmpty (field (Obj kvs) k) = (case map_of kvs k of Some (Arr xs) \<Rightarrow> xs | _ \<Rightarrow> [])"
  by (simp add: field_Obj split: option.splits jsval.splits)

lemma orElse_field:
  "orElse (field (Obj kvs) k) d =
     (case map_of kvs k of Some v \<Rightarrow> if truthy v then v else d | None \<Rightarrow> d)"
  by (simp add: field_Obj orElse_def split: option.splits)

text \<open>The quiz questions are attached to the coerced summary, which is not changed.\<close>

lemma normalizeParsed_fields:
  assumes "normalizeParsed parsed = Inr s"
  shows "simpleExplanation s = simpleExplanation (coerceSummary parsed)"
    and "whatToDo s = whatToDo (coerceSummary parsed)"
    and "whatNotToDo s = whatNotToDo (coerceSummary parsed)"
    and "redFlags s = redFlags (coerceSummary parsed)"
    and "medications s = medications (coerceSummary parsed)"
    and "followUp s = followUp (coerceSummary parsed)"
    and "expectedCourse s = expectedCourse (coerceSummary parsed)"
  using assms
  by (auto simp: normalizeParsed_def Let_def andThen_eq_Inr split: if_splits)

text \<open>The coercion itself never fails: without quiz questions the summary is returned.\<close>

lemma normalizeParsed_without_quiz:
  "\<not> isArray (field parsed ''quizQuestions'') \<Longrightarrow>
     normalizeParsed parsed = Inr (coerceSummary parsed)"
  by (simp add: normalizeParsed_def)




text \<open>The pieces of a split, in order, are the text without its separators.\<close>

lemma concat_splitRuns:
  "concat (splitRuns cur inRun s) = rev cur @ filter (\<lambda>c. \<not> isSeparator c) s"
  by (induction s arbitrary: cur inRun) simp_all

lemma concat_splitSeparators:
  "concat (splitSeparators s) = filter (\<lambda>c. \<not> isSeparator c) s"
  by (simp add: splitSeparators_def concat_splitRuns)

lemma nullish_getProp: "\<not> nullish v \<Longrightarrow> getProp v k = Inr (field v k)"
  by (cases v) (simp_all add: field_def)

lemma nullish_getProp_error: "nullish v \<Longrightarrow> getProp v k = Inl TypeError"
  by (cases v) simp_all

lemma truthy_index0: "truthy v \<Longrightarrow> \<exists>x. index0 v = Inr x"
  by (cases v) simp_all












section \<open>Extraction of the JSON text\<close>

text \<open>
  C1. The specification states that for every raw text that contains a single
  well-formed JSON object, also one whose string values contain literal braces, fence
  stripping and the brace scan extract exactly that object's text. The scan counts
  the braces inside string literals too. On the well-formed object below, whose
  string value ends in a closing brace, the count returns to zero inside the string,
  and what is extracted is a proper prefix of the object that no JSON parser accepts.
\<close>

theorem extractJsonText_brace_in_string:
  \<open>extractJsonText ''{"simpleExplanation":"Smile :}"}''
     = Inr ''{"simpleExplanation":"Smile :}''\<close>
  by code_simp

lemma scanBraces_shift:
  "scanBraces s i n = map_option (\<lambda>j. j + i) (scanBraces s 0 n)"
proof (induction s arbitrary: i n)
  case Nil
  show ?case by simp
next
  case (Cons c cs)
  have a: "scanBraces cs (Suc k) m = map_option (\<lambda>j. j + Suc k) (scanBraces cs 0 m)" for k m
    by (rule Cons.IH)
  have b: "map_option (\<lambda>j. j + k) (map_option Suc x) = map_option (\<lambda>j. Suc (j + k)) x"
    for k and x :: "nat option"
    by (cases x) simp_all
  show ?case
    by (simp add: a b Let_def)
qed

lemma scanBraces_append:
  "scanBraces s i n = Some j \<Longrightarrow> scanBraces (s @ t) i n = Some j"
  by (induction s arbitrary: i n) (auto simp: Let_def split: if_splits)

lemma scanBraces_range:
  "scanBraces s i n = Some j \<Longrightarrow> i \<le> j \<and> j < i + length s"
  by (induction s arbitrary: i n) (fastforce simp: Let_def split: if_splits)+

lemma indexOf_first:
  "c \<notin> set pre \<Longrightarrow> indexOf (pre @ c # rest) c = Some (length pre)"
  by (induction pre) auto

text \<open>
  The scan finds an object that follows brace-free text when the braces of the object,
  those inside its strings included, are balanced and close at its last character.
\<close>

lemma balancedObject_found:
  assumes pre: "CHR ''{'' \<notin> set pre"
    and obj: "scanBraces (CHR ''{'' # body) 0 0 = Some (length body)"
  shows "balancedObject (pre @ (CHR ''{'' # body) @ post) = Inr (CHR ''{'' # body)"
proof -
  have first: "indexOf (pre @ (CHR ''{'' # body) @ post) (CHR ''{'') = Some (length pre)"
    using indexOf_first [OF pre] by simp
  from scanBraces_append [OF obj]
  have "scanBraces ((CHR ''{'' # body) @ post) 0 0 = Some (length body)" .
  then have last: "scanBraces ((CHR ''{'' # body) @ post) (length pre) 0
                    = Some (length body + length pre)"
    by (subst scanBraces_shift) simp
  from obj have "scanBraces body 1 1 = Some (length body)" by simp
  from scanBraces_range [OF this] have pos: "0 < length body" by (cases body) simp_all
  show ?thesis
    unfolding balancedObject_def first
    using last pos by (simp add: substring_def)
qed

text \<open>
  Example 3: the object is found between the fences, and the sentence after the
  closing fence is discarded.
\<close>

lemma extractJsonText_fenced:
  \<open>extractJsonText
     (''```json'' @ [CHR 0x0A] @ ''{"followUp":["See Dr {name} in 2 days"]}'' @ [CHR 0x0A]
      @ ''```'' @ [CHR 0x0A] @ ''I hope this helps.'')
   = Inr ''{"followUp":["See Dr {name} in 2 days"]}''\<close>
  by code_simp

text \<open>
  The whole request then fails on such a response, with any parser that rejects the
  truncated text.
\<close>

lemma processDischargeSummary_brace_in_string:
  assumes \<open>parse ''{"simpleExplanation":"Smile :}'' = None\<close>
  shows \<open>processDischargeSummary parse stringify toNumber
           (Body (Obj [(''candidates'',
              Arr [Obj [(''content'',
                     Obj [(''parts'',
                       Arr [Obj [(''text'', Str ''{"simpleExplanation":"Smile :}"}'')]])]),
                   (''finishReason'', Str ''STOP'')]])]))
         = Inl ParseFailed\<close>
proof -
  have r: \<open>extractResponseText toNumber
           (Obj [(''candidates'',
              Arr [Obj [(''content'',
                     Obj [(''parts'',
                       Arr [Obj [(''text'', Str ''{"simpleExplanation":"Smile :}"}'')]])]),
                   (''finishReason'', Str ''STOP'')]])])
         = Inr (Value (Str ''{"simpleExplanation":"Smile :}"}''))\<close>
    by code_simp
  have j: \<open>extractJsonText ''{"simpleExplanation":"Smile :}"}''
            = Inr ''{"simpleExplanation":"Smile :}''\<close>
    by code_simp
  show ?thesis
    unfolding processDischargeSummary_def httpResponse.case r
    by (simp only: andThen_def sum.case responseText.case jsval.case j assms option.case)
qed

section \<open>The quiz sanitizer\<close>

text \<open>
  C3. The specification states that every question that survives sanitization has
  between 2 and 4 options and a non-empty set of correct indexes that all refer to a
  surviving option, also when most or all of the raw options are meta-answers. The
  check for two options is made on the raw list, before the meta-answers are removed:
  the item below passes it, loses both options, and is returned with no option and
  the index 0.
\<close>

theorem sanitizeQuiz_all_meta_options:
  "sanitizeQuiz
     [Obj [(''question'', Str ''When should you go back to the ER?''),
           (''options'', Arr [Str ''All of the above'', Str ''None of the above'']),
           (''correctOptionIndexes'', Arr [Num 0])]]
   = Inr [\<lparr> qid = Str ''When should you go back to the E'',
            question = Str ''When should you go back to the ER?'',
            options = [],
            correctOptionIndexes = [Num 0],
            category = Str ''care'',
            explanation = Undefined,
            weight = Num 15 \<rparr>]"
  by code_simp

text \<open>
  What does hold of every sanitized question: at most four options, all of them
  strings, and a non-empty index list whose members are within bounds as soon as one
  option is left.
\<close>

lemma sanitizeQuestion_bounds:
  assumes "sanitizeQuestion q = Inr q'"
  shows "length (options q') \<le> 4"
    and "correctOptionIndexes q' \<noteq> []"
    and "opt \<in> set (options q') \<Longrightarrow> \<exists>s. opt = Str s"
    and "options q' \<noteq> [] \<Longrightarrow> i \<in> set (correctOptionIndexes q') \<Longrightarrow>
           validIndex (int (length (options q')) - 1) i"
proof -
  show "length (options q') \<le> 4"
    by (simp add: sanitizeQuestion_options [OF assms])
  show "correctOptionIndexes q' \<noteq> []"
    by (simp add: sanitizeQuestion_indexes [OF assms] Let_def)
  show "\<exists>s. opt = Str s" if "opt \<in> set (options q')"
  proof -
    from that have "keepOption opt = Inr True"
      unfolding sanitizeQuestion_options [OF assms] by (auto dest: in_set_takeD)
    then show ?thesis by (auto simp: keepOption_True)
  qed
  show "validIndex (int (length (options q')) - 1) i"
    if ne: "options q' \<noteq> []" and i: "i \<in> set (correctOptionIndexes q')"
  proof (cases "arrayFromSet (filter (validIndex (int (length (options q')) - 1))
                  (arrayOrEmpty (field q ''correctOptionIndexes''))) = []")
    case True
    with i have "i = Num 0" by (simp add: sanitizeQuestion_indexes [OF assms] Let_def)
    with ne show ?thesis by (cases "options q'") (simp_all add: validIndex_def)
  next
    case False
    with i have "i \<in> set (arrayFromSet (filter (validIndex (int (length (options q')) - 1))
                  (arrayOrEmpty (field q ''correctOptionIndexes''))))"
      by (simp add: sanitizeQuestion_indexes [OF assms] Let_def)
    then show ?thesis by (simp add: set_arrayFromSet)
  qed
qed



text \<open>
  C5, as stated: an option that is a meta-answer variant, matched without regard to
  case on the trimmed text and with or without trailing punctuation, is absent from
  the sanitized options. The option "All of the Above." with its full stop is kept.
\<close>

theorem trailing_punctuation_counterexample:
  "map_sum id options
     (sanitizeQuestion
        (Obj [(''question'', Str ''What should you do if the fever returns?''),
              (''options'', Arr [Str ''Call the doctor'', Str ''Go to ER'', Str ''All of the Above.'']),
              (''correctOptionIndexes'', Arr [Num 0, Num 1, Num 2])]))
   = Inr [Str ''Call the doctor'', Str ''Go to ER'', Str ''All of the Above.'']"
  by code_simp

text \<open>
  C5, amended: an option whose trimmed, lower-cased text is exactly one of the seven
  listed meta-answers is absent from the sanitized options of every sanitized item.
\<close>

theorem meta_options_removed:
  assumes "sanitizeQuestion q = Inr q'"
    and "toLowerCase (trim opt) \<in> set metaOptions"
  shows "Str opt \<notin> set (options q')"
proof
  assume "Str opt \<in> set (options q')"
  then have "Str opt \<in> set (filter (\<lambda>x. keepOption x = Inr True) (arrayOrEmpty (field q ''options'')))"
    unfolding sanitizeQuestion_options [OF assms(1)] by (rule in_set_takeD)
  then have "keepOption (Str opt) = Inr True" by simp
  with assms(2) show False by (simp add: keepOption_True)
qed

theorem meta_options_removed_witness:
  "sanitizeQuestion
     (Obj [(''question'', Str ''What should you do if the fever returns?''),
           (''options'', Arr [Str ''Call the doctor'', Str ''Go to ER'', Str '' All of the ABOVE ''])])
   = Inr \<lparr> qid = Str ''What should you do if the fever '',
           question = Str ''What should you do if the fever returns?'',
           options = [Str ''Call the doctor'', Str ''Go to ER''],
           correctOptionIndexes = [Num 0],
           category = Str ''care'',
           explanation = Undefined,
           weight = Num 15 \<rparr>
   \<and> toLowerCase (trim '' All of the ABOVE '') \<in> set metaOptions
   \<and> Str '' All of the ABOVE '' \<notin> set [Str ''Call the doctor'', Str ''Go to ER'']"
proof -
  have h1: "sanitizeQuestion
     (Obj [(''question'', Str ''What should you do if the fever returns?''),
           (''options'', Arr [Str ''Call the doctor'', Str ''Go to ER'', Str '' All of the ABOVE ''])])
   = Inr \<lparr> qid = Str ''What should you do if the fever '',
           question = Str ''What should you do if the fever returns?'',
           options = [Str ''Call the doctor'', Str ''Go to ER''],
           correctOptionIndexes = [Num 0],
           category = Str ''care'',
           explanation = Undefined,
           weight = Num 15 \<rparr>"
    by code_simp
  have h2: "toLowerCase (trim '' All of the ABOVE '') \<in> set metaOptions"
    by code_simp
  from meta_options_removed [OF h1 h2] h1 h2 show ?thesis by simp
qed

text \<open>
  C6, as stated: an item with more than 4 options has exactly 4 sanitized options.
  The item below has 5 options, two of them meta-answers, and 3 sanitized options.
\<close>

theorem five_options_counterexample:
  "map_sum id options
     (sanitizeQuestion
        (Obj [(''question'', Str ''What should you do if the fever returns?''),
              (''options'', Arr [Str ''Call the doctor'', Str ''Go to ER'', Str ''Give fluids'',
                                Str ''All of the above'', Str ''None of the above'']),
              (''correctOptionIndexes'', Arr [Num 3])]))
   = Inr [Str ''Call the doctor'', Str ''Go to ER'', Str ''Give fluids'']"
  by code_simp

text \<open>
  C6, amended: the sanitized options of an item are the first four (all, when there
  are fewer) of its options that pass the filter of blank and meta-answer options;
  they appear in the same relative order as in the original list, and there are
  exactly 4 of them as soon as at least 4 options pass the filter.
\<close>

theorem options_truncated_in_order:
  assumes "sanitizeQuestion q = Inr q'"
    and "field q ''options'' = Arr os"
  shows "options q' = take 4 (filter (\<lambda>opt. keepOption opt = Inr True) os)
       \<and> subseq (options q') os
       \<and> length (options q') = min 4 (length (filter (\<lambda>opt. keepOption opt = Inr True) os))"
proof -
  have eq: "options q' = take 4 (filter (\<lambda>opt. keepOption opt = Inr True) os)"
    using sanitizeQuestion_options [OF assms(1)] assms(2) by simp
  have "subseq (take 4 (filter (\<lambda>opt. keepOption opt = Inr True) os))
          (filter (\<lambda>opt. keepOption opt = Inr True) os)"
    by (metis append_take_drop_id prefix_imp_subseq prefixI)
  then have "subseq (options q') os"
    unfolding eq using subseq_filter_left subseq_order.order_trans by blast
  with eq show ?thesis by (simp add: min.commute)
qed

theorem options_truncated_in_order_witness:
  "sanitizeQuestion
     (Obj [(''question'', Str ''What should you do?''),
           (''options'', Arr [Str ''Call the doctor'', Str ''All of the above'', Str ''Go to ER'',
                             Str ''Give fluids'', Str ''Rest'', Str ''Wait'']),
           (''weight'', Num 40)])
   = Inr \<lparr> qid = Str ''What should you do?'',
           question = Str ''What should you do?'',
           options = [Str ''Call the doctor'', Str ''Go to ER'', Str ''Give fluids'', Str ''Rest''],
           correctOptionIndexes = [Num 0],
           category = Str ''care'',
           explanation = Undefined,
           weight = Num 40 \<rparr>
   \<and> subseq [Str ''Call the doctor'', Str ''Go to ER'', Str ''Give fluids'', Str ''Rest'']
        [Str ''Call the doctor'', Str ''All of the above'', Str ''Go to ER'',
         Str ''Give fluids'', Str ''Rest'', Str ''Wait'']
   \<and> length [Str ''Call the doctor'', Str ''Go to ER'', Str ''Give fluids'', Str ''Rest''] = 4"
proof -
  have h1: "sanitizeQuestion
     (Obj [(''question'', Str ''What should you do?''),
           (''options'', Arr [Str ''Call the doctor'', Str ''All of the above'', Str ''Go to ER'',
                             Str ''Give fluids'', Str ''Rest'', Str ''Wait'']),
           (''weight'', Num 40)])
   = Inr \<lparr> qid = Str ''What should you do?'',
           question = Str ''What should you do?'',
           options = [Str ''Call the doctor'', Str ''Go to ER'', Str ''Give fluids'', Str ''Rest''],
           correctOptionIndexes = [Num 0],
           category = Str ''care'',
           explanation = Undefined,
           weight = Num 40 \<rparr>"
    by code_simp
  have h2: "field
     (Obj [(''question'', Str ''What should you do?''),
           (''options'', Arr [Str ''Call the doctor'', Str ''All of the above'', Str ''Go to ER'',
                             Str ''Give fluids'', Str ''Rest'', Str ''Wait'']),
           (''weight'', Num 40)]) ''options''
     = Arr [Str ''Call the doctor'', Str ''All of the above'', Str ''Go to ER'',
            Str ''Give fluids'', Str ''Rest'', Str ''Wait'']"
    by code_simp
  note t = options_truncated_in_order [OF h1 h2, THEN conjunct2, THEN conjunct1]
  have s: "subseq [Str ''Call the doctor'', Str ''Go to ER'', Str ''Give fluids'', Str ''Rest'']
          [Str ''Call the doctor'', Str ''All of the above'', Str ''Go to ER'',
           Str ''Give fluids'', Str ''Rest'', Str ''Wait'']"
    using t by (simp only: quizQuestion.select_convs)
  show ?thesis using h1 s by (intro conjI) (assumption, assumption, simp)
qed

section \<open>The schema coercion\<close>

text \<open>
  C2. For every parsed JSON object from which a summary is returned, each of the five
  array fields of the summary is the parsed value when that is an array and the empty
  list otherwise, and \<open>simpleExplanation\<close> and \<open>expectedCourse\<close> are the parsed value
  when it is truthy and their fixed default string otherwise.
\<close>

theorem summary_fields_coerced:
  assumes "normalizeParsed (Obj kvs) = Inr s"
  shows "whatToDo s = (case map_of kvs ''whatToDo'' of Some (Arr xs) \<Rightarrow> xs | _ \<Rightarrow> [])
       \<and> whatNotToDo s = (case map_of kvs ''whatNotToDo'' of Some (Arr xs) \<Rightarrow> xs | _ \<Rightarrow> [])
       \<and> redFlags s = (case map_of kvs ''redFlags'' of Some (Arr xs) \<Rightarrow> xs | _ \<Rightarrow> [])
       \<and> medications s = (case map_of kvs ''medications'' of Some (Arr xs) \<Rightarrow> xs | _ \<Rightarrow> [])
       \<and> followUp s = (case map_of kvs ''followUp'' of Some (Arr xs) \<Rightarrow> xs | _ \<Rightarrow> [])
       \<and> simpleExplanation s =
           (case map_of kvs ''simpleExplanation'' of
              Some v \<Rightarrow> if truthy v then v else Str defaultExplanation
            | None \<Rightarrow> Str defaultExplanation)
       \<and> expectedCourse s =
           (case map_of kvs ''expectedCourse'' of
              Some v \<Rightarrow> if truthy v then v else Str defaultCourse
            | None \<Rightarrow> Str defaultCourse)"
  unfolding normalizeParsed_fields [OF assms]
  by (simp only: coerceSummary_def pediatricSummary.select_convs arrayOrEmpty_field orElse_field
        simp_thms)

text \<open>
  The response of Example 1, with \<open>whatToDo\<close> a string and an empty
  \<open>expectedCourse\<close>.
\<close>

theorem summary_fields_coerced_witness:
  "normalizeParsed
     (Obj [(''simpleExplanation'', Str ''Your child had a fever.''),
           (''whatToDo'', Str ''Give paracetamol''),
           (''redFlags'', Arr [Str ''Trouble breathing'']),
           (''expectedCourse'', Str [])])
   = Inr \<lparr> simpleExplanation = Str ''Your child had a fever.'',
           whatToDo = [],
           whatNotToDo = [],
           redFlags = [Str ''Trouble breathing''],
           medications = [],
           followUp = [],
           expectedCourse = Str defaultCourse,
           quizQuestions = None \<rparr>
   \<and> [] = (case map_of
               [(''simpleExplanation'', Str ''Your child had a fever.''),
                (''whatToDo'', Str ''Give paracetamol''),
                (''redFlags'', Arr [Str ''Trouble breathing'']),
                (''expectedCourse'', Str [])] ''whatToDo''
             of Some (Arr xs) \<Rightarrow> xs | _ \<Rightarrow> [])"
proof -
  have h: "normalizeParsed
     (Obj [(''simpleExplanation'', Str ''Your child had a fever.''),
           (''whatToDo'', Str ''Give paracetamol''),
           (''redFlags'', Arr [Str ''Trouble breathing'']),
           (''expectedCourse'', Str [])])
   = Inr \<lparr> simpleExplanation = Str ''Your child had a fever.'',
           whatToDo = [],
           whatNotToDo = [],
           redFlags = [Str ''Trouble breathing''],
           medications = [],
           followUp = [],
           expectedCourse = Str defaultCourse,
           quizQuestions = None \<rparr>"
    by code_simp
  note t = summary_fields_coerced [OF h, THEN conjunct1]
  have c: "[] = (case map_of
               [(''simpleExplanation'', Str ''Your child had a fever.''),
                (''whatToDo'', Str ''Give paracetamol''),
                (''redFlags'', Arr [Str ''Trouble breathing'']),
                (''expectedCourse'', Str [])] ''whatToDo''
             of Some (Arr xs) \<Rightarrow> xs | _ \<Rightarrow> [])"
    using t by (simp only: pediatricSummary.select_convs)
  show ?thesis using h c by (intro conjI) assumption+
qed

text \<open>
  C10. The coercion is shallow: for each of the five expected fields on its own, when
  the field of the parsed object is an array, whatever its elements are, the returned
  summary holds exactly this array, element for element.
\<close>

theorem array_fields_pass_through:
  assumes "normalizeParsed (Obj kvs) = Inr s"
  shows "(map_of kvs ''whatToDo'' = Some (Arr todo) \<longrightarrow> whatToDo s = todo)
       \<and> (map_of kvs ''whatNotToDo'' = Some (Arr avoid) \<longrightarrow> whatNotToDo s = avoid)
       \<and> (map_of kvs ''redFlags'' = Some (Arr flags) \<longrightarrow> redFlags s = flags)
       \<and> (map_of kvs ''medications'' = Some (Arr meds) \<longrightarrow> medications s = meds)
       \<and> (map_of kvs ''followUp'' = Some (Arr follow) \<longrightarrow> followUp s = follow)"
  unfolding normalizeParsed_fields [OF assms]
  by (simp add: coerceSummary_def arrayOrEmpty_field)

text \<open>
  A number and a null among the instructions, and a medication entry with neither
  name, dose nor timing, reach the summary; so does the only array of a response
  whose other fields are missing or are not arrays.
\<close>

theorem array_fields_pass_through_witness:
  "(normalizeParsed
      (Obj [(''whatToDo'', Arr [Num 5, Null, Str ''Give fluids'']),
            (''whatNotToDo'', Arr [Bool False]),
            (''redFlags'', Arr [Arr []]),
            (''medications'', Arr [Obj [(''notes'', Str ''with food'')]]),
            (''followUp'', Arr [Obj []])])
    = Inr \<lparr> simpleExplanation = Str defaultExplanation,
            whatToDo = [Num 5, Null, Str ''Give fluids''],
            whatNotToDo = [Bool False],
            redFlags = [Arr []],
            medications = [Obj [(''notes'', Str ''with food'')]],
            followUp = [Obj []],
            expectedCourse = Str defaultCourse,
            quizQuestions = None \<rparr>)
   \<and> (normalizeParsed
        (Obj [(''whatToDo'', Arr [Str ''Give fluids'', Num 2]),
              (''redFlags'', Str ''Trouble breathing'')])
      = Inr \<lparr> simpleExplanation = Str defaultExplanation,
              whatToDo = [Str ''Give fluids'', Num 2],
              whatNotToDo = [],
              redFlags = [],
              medications = [],
              followUp = [],
              expectedCourse = Str defaultCourse,
              quizQuestions = None \<rparr>)"
proof -
  define full where "full =
    [(''whatToDo'', Arr [Num 5, Null, Str ''Give fluids'']),
     (''whatNotToDo'', Arr [Bool False]),
     (''redFlags'', Arr [Arr []]),
     (''medications'', Arr [Obj [(''notes'', Str ''with food'')]]),
     (''followUp'', Arr [Obj []])]"
  define single where "single =
    [(''whatToDo'', Arr [Str ''Give fluids'', Num 2]),
     (''redFlags'', Str ''Trouble breathing'')]"
  have q1: "\<not> isArray (field (Obj full) ''quizQuestions'')"
    by (simp add: full_def field_Obj)
  have q2: "\<not> isArray (field (Obj single) ''quizQuestions'')"
    by (simp add: single_def field_Obj)
  note r1 = normalizeParsed_without_quiz [OF q1]
  note r2 = normalizeParsed_without_quiz [OF q2]
  have m1: "map_of full ''whatToDo'' = Some (Arr [Num 5, Null, Str ''Give fluids''])"
    and m2: "map_of full ''whatNotToDo'' = Some (Arr [Bool False])"
    and m3: "map_of full ''redFlags'' = Some (Arr [Arr []])"
    and m4: "map_of full ''medications'' = Some (Arr [Obj [(''notes'', Str ''with food'')]])"
    and m5: "map_of full ''followUp'' = Some (Arr [Obj []])"
    by (simp_all add: full_def)
  have m6: "map_of single ''whatToDo'' = Some (Arr [Str ''Give fluids'', Num 2])"
    by (simp add: single_def)
  note t1 = array_fields_pass_through [OF r1]
  note t2 = array_fields_pass_through [OF r2]
  have a1: "whatToDo (coerceSummary (Obj full)) = [Num 5, Null, Str ''Give fluids'']"
    using t1 m1 by blast
  have a2: "whatNotToDo (coerceSummary (Obj full)) = [Bool False]"
    using t1 m2 by blast
  have a3: "redFlags (coerceSummary (Obj full)) = [Arr []]"
    using t1 m3 by blast
  have a4: "medications (coerceSummary (Obj full)) = [Obj [(''notes'', Str ''with food'')]]"
    using t1 m4 by blast
  have a5: "followUp (coerceSummary (Obj full)) = [Obj []]"
    using t1 m5 by blast
  have b1: "whatToDo (coerceSummary (Obj single)) = [Str ''Give fluids'', Num 2]"
    using t2 m6 by blast
  have e1: "simpleExplanation (coerceSummary (Obj full)) = Str defaultExplanation"
    and e2: "expectedCourse (coerceSummary (Obj full)) = Str defaultCourse"
    and e3: "quizQuestions (coerceSummary (Obj full)) = None"
    by (simp_all add: coerceSummary_def full_def field_Obj orElse_def)
  have f1: "simpleExplanation (coerceSummary (Obj single)) = Str defaultExplanation"
    and f2: "expectedCourse (coerceSummary (Obj single)) = Str defaultCourse"
    and f3: "quizQuestions (coerceSummary (Obj single)) = None"
    and f4: "whatNotToDo (coerceSummary (Obj single)) = []"
    and f5: "redFlags (coerceSummary (Obj single)) = []"
    and f6: "medications (coerceSummary (Obj single)) = []"
    and f7: "followUp (coerceSummary (Obj single)) = []"
    by (simp_all add: coerceSummary_def single_def field_Obj orElse_def)
  have s1: "coerceSummary (Obj full) =
          \<lparr> simpleExplanation = Str defaultExplanation,
            whatToDo = [Num 5, Null, Str ''Give fluids''],
            whatNotToDo = [Bool False],
            redFlags = [Arr []],
            medications = [Obj [(''notes'', Str ''with food'')]],
            followUp = [Obj []],
            expectedCourse = Str defaultCourse,
            quizQuestions = None \<rparr>"
    by (rule pediatricSummary.equality) (simp_all add: a1 a2 a3 a4 a5 e1 e2 e3)
  have s2: "coerceSummary (Obj single) =
          \<lparr> simpleExplanation = Str defaultExplanation,
              whatToDo = [Str ''Give fluids'', Num 2],
              whatNotToDo = [],
              redFlags = [],
              medications = [],
              followUp = [],
              expectedCourse = Str defaultCourse,
              quizQuestions = None \<rparr>"
    by (rule pediatricSummary.equality) (simp_all add: b1 f1 f2 f3 f4 f5 f6 f7)
  from r1 have g1: "normalizeParsed (Obj full) =
          Inr \<lparr> simpleExplanation = Str defaultExplanation,
            whatToDo = [Num 5, Null, Str ''Give fluids''],
            whatNotToDo = [Bool False],
            redFlags = [Arr []],
            medications = [Obj [(''notes'', Str ''with food'')]],
            followUp = [Obj []],
            expectedCourse = Str defaultCourse,
            quizQuestions = None \<rparr>"
    by (simp only: s1)
  from r2 have g2: "normalizeParsed (Obj single) =
          Inr \<lparr> simpleExplanation = Str defaultExplanation,
              whatToDo = [Str ''Give fluids'', Num 2],
              whatNotToDo = [],
              redFlags = [],
              medications = [],
              followUp = [],
              expectedCourse = Str defaultCourse,
              quizQuestions = None \<rparr>"
    by (simp only: s2)
  show ?thesis
    using g1 g2 unfolding full_def single_def by (rule conjI)
qed

section \<open>Normalizing a normalized summary\<close>

text \<open>
  C7. The specification states that normalizing the JSON serialization of a
  normalized output gives that output again. The first run below keeps a question
  whose two raw options are reduced to one by the removal of the meta-answer; the
  second run, on the serialized result, finds a question with fewer than two options
  and drops it.
\<close>

theorem renormalize_drops_question:
  "normalizeParsed
     (Obj [(''quizQuestions'',
            Arr [Obj [(''id'', Str ''q1''),
                      (''question'', Str ''What should you do if the fever returns?''),
                      (''options'', Arr [Str ''Call the doctor'', Str ''All of the above'']),
                      (''correctOptionIndexes'', Arr [Num 0]),
                      (''category'', Str ''redFlag'')]])])
   = Inr \<lparr> simpleExplanation = Str defaultExplanation,
           whatToDo = [], whatNotToDo = [], redFlags = [], medications = [], followUp = [],
           expectedCourse = Str defaultCourse,
           quizQuestions = Some
             [\<lparr> qid = Str ''q1'',
                question = Str ''What should you do if the fever returns?'',
                options = [Str ''Call the doctor''],
                correctOptionIndexes = [Num 0],
                category = Str ''redFlag'',
                explanation = Undefined,
                weight = Num 30 \<rparr>] \<rparr>
   \<and> normalizeParsed (summaryJson
       \<lparr> simpleExplanation = Str defaultExplanation,
         whatToDo = [], whatNotToDo = [], redFlags = [], medications = [], followUp = [],
         expectedCourse = Str defaultCourse,
         quizQuestions = Some
           [\<lparr> qid = Str ''q1'',
              question = Str ''What should you do if the fever returns?'',
              options = [Str ''Call the doctor''],
              correctOptionIndexes = [Num 0],
              category = Str ''redFlag'',
              explanation = Undefined,
              weight = Num 30 \<rparr>] \<rparr>)
   = Inr \<lparr> simpleExplanation = Str defaultExplanation,
           whatToDo = [], whatNotToDo = [], redFlags = [], medications = [], followUp = [],
           expectedCourse = Str defaultCourse,
           quizQuestions = Some [] \<rparr>"
  by code_simp

lemma sliceCall_truthy: "truthy v \<Longrightarrow> sliceCall v n = Inr i \<Longrightarrow> 0 < n \<Longrightarrow> truthy i"
  by (cases v) (auto simp: sliceCall_def)

lemma sanitizeQuestion_wellFormed:
  assumes "sanitizeQuestion q = Inr q'" and "truthy (field q ''question'')"
  shows "wellFormedQuestion q'"
proof -
  from assms(1) obtain cleaned cands i where
    f: "filterE keepOption (arrayOrEmpty (field q ''options'')) = Inr cleaned"
    and i: "(if truthy (field q ''id'') then Inr (field q ''id'')
             else sliceCall (field q ''question'') 32) = Inr i"
    and q': "q' = \<lparr> qid = i, question = field q ''question'', options = take 4 cleaned,
           correctOptionIndexes =
             (if arrayFromSet (filter (validIndex (int (length (take 4 cleaned)) - 1)) cands) = []
              then [Num 0]
              else arrayFromSet (filter (validIndex (int (length (take 4 cleaned)) - 1)) cands)),
           category = (if nullish (field q ''category'') then Str ''care''
                       else field q ''category''),
           explanation = field q ''explanation'',
           weight = (case field q ''weight'' of
                Num x \<Rightarrow> Num x
              | _ \<Rightarrow> Num (defaultWeight (field q ''category''))) \<rparr>"
    unfolding sanitizeQuestion_def andThen_eq_Inr Let_def by fastforce
  have 1: "truthy i"
    using i assms(2) sliceCall_truthy [of "field q ''question''" 32 i]
    by (auto split: if_splits)
  have 2: "list_all (\<lambda>opt. keepOption opt = Inr True) (take 4 cleaned)"
    using filterE_Inr [OF f] by (auto simp: list_all_iff dest: in_set_takeD)
  have 3: "list_all (validIndex m) (arrayFromSet (filter (validIndex m) cands))" for m
    by (simp add: list_all_iff set_arrayFromSet)
  have 4: "(case (case field q ''weight'' of
                Num x \<Rightarrow> Num x
              | _ \<Rightarrow> Num (defaultWeight (field q ''category''))) of Num w \<Rightarrow> True | _ \<Rightarrow> False)"
    by (cases "field q ''weight''") simp_all
  show ?thesis
    unfolding wellFormedQuestion_def q'
    using 1 2 3 4 assms(2) by (auto simp: distinct_arrayFromSet)
qed


lemma map_of_definedProps:
  "distinct (map fst kvs) \<Longrightarrow>
     map_of (definedProps kvs) k =
       (case map_of kvs k of Some v \<Rightarrow> if v = Undefined then None else Some v | None \<Rightarrow> None)"
proof (induction kvs)
  case Nil
  then show ?case by (simp add: definedProps_def)
next
  case (Cons kv kvs)
  then have ih: "map_of (definedProps kvs) k =
       (case map_of kvs k of Some v \<Rightarrow> if v = Undefined then None else Some v | None \<Rightarrow> None)"
    by simp
  from Cons.prems have "fst kv \<notin> fst ` set kvs" by simp
  then have n: "map_of kvs (fst kv) = None" by (simp add: map_of_eq_None_iff)
  show ?case
  proof (cases "fst kv = k")
    case True
    with n ih show ?thesis
      by (cases kv) (auto simp: definedProps_def)
  next
    case False
    with ih show ?thesis
      by (cases kv) (auto simp: definedProps_def)
  qed
qed

lemma field_definedProps:
  "distinct (map fst kvs) \<Longrightarrow> field (Obj (definedProps kvs)) k = field (Obj kvs) k"
  by (simp add: field_Obj map_of_definedProps split: option.splits)

lemma field_questionJson:
  "field (questionJson q) ''id'' = qid q"
  "field (questionJson q) ''question'' = question q"
  "field (questionJson q) ''options'' = Arr (options q)"
  "field (questionJson q) ''correctOptionIndexes'' = Arr (correctOptionIndexes q)"
  "field (questionJson q) ''category'' = category q"
  "field (questionJson q) ''explanation'' = explanation q"
  "field (questionJson q) ''weight'' = weight q"
  unfolding questionJson_def
  by (simp_all add: field_definedProps) (simp_all add: field_Obj)

lemma filterE_all_kept:
  "list_all (\<lambda>x. p x = Inr True) xs \<Longrightarrow> filterE p xs = Inr xs"
  by (induction xs) (simp_all add: andThen_def)

lemma arrayFromSet_fold_distinct:
  "distinct (seen @ xs) \<Longrightarrow>
     foldl (\<lambda>seen x. if x \<in> set seen then seen else seen @ [x]) seen xs = seen @ xs"
  by (induction xs arbitrary: seen) auto

lemma arrayFromSet_distinct: "distinct xs \<Longrightarrow> arrayFromSet xs = xs"
  using arrayFromSet_fold_distinct [of "[]" xs] by (simp add: arrayFromSet_def)

lemma filter_all_valid: "list_all P xs \<Longrightarrow> filter P xs = xs"
  by (induction xs) simp_all

lemma sanitizeQuestion_questionJson:
  assumes w: "wellFormedQuestion q" and two: "2 \<le> length (options q)"
  shows "sanitizeQuestion (questionJson q) = Inr q"
proof -
  from w have o: "filterE keepOption (options q) = Inr (options q)"
    by (simp add: wellFormedQuestion_def filterE_all_kept)
  from w have t: "take 4 (options q) = options q"
    by (simp add: wellFormedQuestion_def)
  have z: "validIndex (int (length (options q)) - 1) (Num 0)"
    using two by (simp add: validIndex_def)
  from w z have v: "filter (validIndex (int (length (options q)) - 1)) (correctOptionIndexes q)
                    = correctOptionIndexes q"
    by (auto simp: wellFormedQuestion_def filter_all_valid)
  from w have d: "arrayFromSet (correctOptionIndexes q) = correctOptionIndexes q"
    by (auto simp: wellFormedQuestion_def arrayFromSet_distinct)
  from w have ne: "correctOptionIndexes q \<noteq> []"
    by (auto simp: wellFormedQuestion_def)
  from w obtain x where wt: "weight q = Num x"
    by (cases "weight q") (auto simp: wellFormedQuestion_def)
  from w have i: "truthy (qid q)" and c: "\<not> nullish (category q)"
    by (auto simp: wellFormedQuestion_def)
  have "sanitizeQuestion (questionJson q) =
          Inr \<lparr> qid = qid q, question = question q, options = options q,
                correctOptionIndexes = correctOptionIndexes q, category = category q,
                explanation = explanation q, weight = weight q \<rparr>"
    unfolding sanitizeQuestion_def field_questionJson
    by (simp only: arrayOrEmpty.simps o andThen_def sum.case Let_def t indexCandidates_def
          truthy.simps jsval.case if_True if_False v d ne i c wt)
  then show ?thesis by simp
qed

lemma acceptsQuestion_questionJson:
  assumes "wellFormedQuestion q" and "2 \<le> length (options q)"
  shows "acceptsQuestion (questionJson q)"
  using assms
  unfolding acceptsQuestion_def field_questionJson
  by (simp add: wellFormedQuestion_def questionJson_def)


lemma mapE_Inr: "mapE f xs = Inr ys \<Longrightarrow> list_all2 (\<lambda>x y. f x = Inr y) xs ys"
  by (induction xs arbitrary: ys) (auto simp: andThen_eq_Inr)

lemma sanitizeQuiz_wellFormed:
  assumes "sanitizeQuiz qs = Inr qs'"
  shows "list_all wellFormedQuestion qs'"
proof -
  from assms have "list_all2 (\<lambda>x y. sanitizeQuestion x = Inr y) (filter acceptsQuestion qs) qs'"
    unfolding sanitizeQuiz_def by (rule mapE_Inr)
  then have "list_all2 (\<lambda>x y. wellFormedQuestion y) (filter acceptsQuestion qs) qs'"
    by (rule list_all2_mono [rotated -1] list.rel_mono_strong)
       (auto simp: acceptsQuestion_def intro: sanitizeQuestion_wellFormed)
  then show ?thesis
    by (auto simp: list_all2_conv_all_nth list_all_length)
qed

lemma sanitizeQuiz_questionJson:
  "list_all wellFormedQuestion qs \<Longrightarrow> list_all (\<lambda>q. 2 \<le> length (options q)) qs \<Longrightarrow>
     sanitizeQuiz (map questionJson qs) = Inr qs"
  unfolding sanitizeQuiz_def
  by (induction qs)
     (simp_all add: acceptsQuestion_questionJson sanitizeQuestion_questionJson andThen_def)

lemma field_summaryJson:
  "field (summaryJson s) ''simpleExplanation'' = simpleExplanation s"
  "field (summaryJson s) ''whatToDo'' = Arr (whatToDo s)"
  "field (summaryJson s) ''whatNotToDo'' = Arr (whatNotToDo s)"
  "field (summaryJson s) ''redFlags'' = Arr (redFlags s)"
  "field (summaryJson s) ''medications'' = Arr (medications s)"
  "field (summaryJson s) ''followUp'' = Arr (followUp s)"
  "field (summaryJson s) ''expectedCourse'' = expectedCourse s"
  "field (summaryJson s) ''quizQuestions'' =
     (case quizQuestions s of None \<Rightarrow> Undefined | Some qs \<Rightarrow> Arr (map questionJson qs))"
  unfolding summaryJson_def field_Obj map_of_append
  by (simp_all add: map_of_definedProps map_add_def split: option.splits)

lemma normalizeParsed_truthy:
  assumes "normalizeParsed parsed = Inr s"
  shows "truthy (simpleExplanation s)" and "truthy (expectedCourse s)"
  unfolding normalizeParsed_fields [OF assms]
  by (simp_all add: coerceSummary_def orElse_def defaultExplanation_def defaultCourse_def)

lemma normalizeParsed_quiz:
  assumes "normalizeParsed parsed = Inr s"
  shows "list_all wellFormedQuestion (case quizQuestions s of None \<Rightarrow> [] | Some qs \<Rightarrow> qs)"
  using assms
  by (auto simp: normalizeParsed_def Let_def andThen_eq_Inr coerceSummary_def
           split: if_splits dest: sanitizeQuiz_wellFormed)

text \<open>
  Where every returned question has kept at least two options, normalizing the
  serialized summary gives the summary again.
\<close>

lemma renormalize_stable:
  assumes n: "normalizeParsed parsed = Inr s"
    and two: "list_all (\<lambda>q. 2 \<le> length (options q))
                (case quizQuestions s of None \<Rightarrow> [] | Some qs \<Rightarrow> qs)"
  shows "normalizeParsed (summaryJson s) = Inr s"
proof -
  have c: "coerceSummary (summaryJson s) = s\<lparr>quizQuestions := None\<rparr>"
    unfolding coerceSummary_def field_summaryJson
    using normalizeParsed_truthy [OF n] by (simp add: orElse_def)
  show ?thesis
  proof (cases "quizQuestions s")
    case None
    then show ?thesis
      unfolding normalizeParsed_def c field_summaryJson by simp
  next
    case (Some qs)
    with normalizeParsed_quiz [OF n] two
    have "sanitizeQuiz (map questionJson qs) = Inr qs"
      by (simp add: sanitizeQuiz_questionJson)
    with Some show ?thesis
      unfolding normalizeParsed_def c field_summaryJson by (simp add: andThen_def)
  qed
qed

section \<open>The grading fallback\<close>




text \<open>Any other throw of the \<^verbatim>\<open>try\<close> block is caught in the same way.\<close>

lemma gradeQuizAnswer_catches:
  "remoteGrade parse response = Inl e \<Longrightarrow>
     gradeQuizAnswer parse response correctAnswer userAnswer
       = fallbackGrade correctAnswer userAnswer"
  by (simp add: gradeQuizAnswer_def)

section \<open>The completion client\<close>

text \<open>
  C9, as stated: when none of the tolerated shapes yields the generated text, a fatal
  extraction error is raised and no substitute content is used. In the response below
  the first part has neither a text nor inline data: the part itself, serialized, is
  taken as the response text.
\<close>

theorem no_text_shape_counterexample:
  "extractResponseText exampleConversion
     (Obj [(''candidates'',
            Arr [Obj [(''content'', Obj [(''parts'', Arr [Obj [(''thought'', Bool True)]])]),
                      (''finishReason'', Str ''STOP'')]])])
   = Inr (Stringified (Obj [(''thought'', Bool True)]))"
  by code_simp

text \<open>
  C9, amended: for every response that passes the earlier checks and in which no shape
  yields a text (no truthy text and no truthy inline data on the first part, no truthy
  text on the candidate or on the response), no extraction error is raised and the
  client continues with substitute content: the serialization of the first part when
  the content has parts (a TypeError when that part is null or missing), and the
  serialization of the whole response when it has none.
\<close>

theorem no_text_shape_continues:
  assumes checks: "earlierChecksPass data"
    and parts: "hasParts toNumber (field (firstCandidate data) ''content'') = Inr withParts"
    and t1: "\<not> truthy (field (firstPart data) ''text'')"
    and t2: "\<not> truthy (field (firstPart data) ''inlineData'')"
    and t3: "\<not> truthy (field (firstCandidate data) ''text'')"
    and t4: "\<not> truthy (field data ''text'')"
  shows "extractResponseText toNumber data =
           (if withParts
            then (if nullish (firstPart data) then Inl TypeError
                  else Inr (Stringified (firstPart data)))
            else Inr (Stringified data))"
proof -
  from checks have d: "getProp data ''error'' = Inr (field data ''error'')"
    and e: "\<not> truthy (field data ''error'')"
    and c: "truthy (field data ''candidates'')"
    and l: "field (field data ''candidates'') ''length'' \<noteq> Num 0"
    and n: "\<not> nullish (firstCandidate data)"
    and m: "field (firstCandidate data) ''finishReason'' \<noteq> Str ''MAX_TOKENS''"
    and k: "truthy (field (firstCandidate data) ''content'')"
    by (simp_all add: earlierChecksPass_def nullish_getProp)
  from truthy_index0 [OF c] have i: "index0 (field data ''candidates'') = Inr (firstCandidate data)"
    by (auto simp: firstCandidate_def)
  from n have f: "getProp (firstCandidate data) ''finishReason''
                   = Inr (field (firstCandidate data) ''finishReason'')"
    by (simp add: nullish_getProp)
  show ?thesis
  proof (cases withParts)
    case False
    with parts t3 t4 show ?thesis
      unfolding extractResponseText_def
      by (simp add: d e c l i f m k andThen_def Let_def)
  next
    case True
    with parts have "truthy (field (field (firstCandidate data) ''content'') ''parts'')"
      by (auto simp: hasParts_def Let_def split: if_splits)
    from truthy_index0 [OF this] obtain part
      where ip: "index0 (field (field (firstCandidate data) ''content'') ''parts'') = Inr part" ..
    then have fp: "firstPart data = part" by (simp add: firstPart_def)
    show ?thesis
    proof (cases "nullish part")
      case True
      with parts \<open>withParts\<close> show ?thesis
        unfolding extractResponseText_def
        by (simp add: d e c l i f m k andThen_def Let_def ip fp nullish_getProp_error
             )
    next
      case False
      then have g: "getProp part ''text'' = Inr (field part ''text'')"
        by (simp add: nullish_getProp)
      from parts \<open>withParts\<close> t1 t2 False show ?thesis
        unfolding extractResponseText_def
        by (simp add: d e c l i f m k andThen_def Let_def ip fp g)
    qed
  qed
qed

text \<open>
  Two responses without any text: one whose parts are an object with the length "1",
  which the platform converts to the number 1, and whose first part is serialized; one
  whose content has no parts, which is serialized as a whole.
\<close>

theorem no_text_shape_continues_witness:
  "(earlierChecksPass
      (Obj [(''candidates'',
             Arr [Obj [(''content'',
                    Obj [(''parts'',
                      Obj [(''0'', Obj [(''thought'', Bool True)]), (''length'', Str ''1'')])])]])])
    \<and> extractResponseText exampleConversion
      (Obj [(''candidates'',
             Arr [Obj [(''content'',
                    Obj [(''parts'',
                      Obj [(''0'', Obj [(''thought'', Bool True)]), (''length'', Str ''1'')])])]])])
      = Inr (Stringified (Obj [(''thought'', Bool True)])))
   \<and> (earlierChecksPass
        (Obj [(''candidates'',
               Arr [Obj [(''content'', Obj [(''role'', Str ''model'')]),
                         (''finishReason'', Str ''STOP'')]])])
      \<and> extractResponseText exampleConversion
        (Obj [(''candidates'',
               Arr [Obj [(''content'', Obj [(''role'', Str ''model'')]),
                         (''finishReason'', Str ''STOP'')]])])
        = Inr (Stringified
        (Obj [(''candidates'',
               Arr [Obj [(''content'', Obj [(''role'', Str ''model'')]),
                         (''finishReason'', Str ''STOP'')]])])))"
proof -
  define a where "a =
      Obj [(''candidates'',
             Arr [Obj [(''content'',
                    Obj [(''parts'',
                      Obj [(''0'', Obj [(''thought'', Bool True)]), (''length'', Str ''1'')])])]])]"
  define b where "b =
        Obj [(''candidates'',
               Arr [Obj [(''content'', Obj [(''role'', Str ''model'')]),
                         (''finishReason'', Str ''STOP'')]])]"
  have a1: "earlierChecksPass a"
    and a2: "hasParts exampleConversion (field (firstCandidate a) ''content'') = Inr True"
    and a3: "\<not> truthy (field (firstPart a) ''text'')"
    and a4: "\<not> truthy (field (firstPart a) ''inlineData'')"
    and a5: "\<not> truthy (field (firstCandidate a) ''text'')"
    and a6: "\<not> truthy (field a ''text'')"
    and a7: "firstPart a = Obj [(''thought'', Bool True)]"
    unfolding a_def by code_simp+
  have b1: "earlierChecksPass b"
    and b2: "hasParts exampleConversion (field (firstCandidate b) ''content'') = Inr False"
    and b3: "\<not> truthy (field (firstPart b) ''text'')"
    and b4: "\<not> truthy (field (firstPart b) ''inlineData'')"
    and b5: "\<not> truthy (field (firstCandidate b) ''text'')"
    and b6: "\<not> truthy (field b ''text'')"
    unfolding b_def by code_simp+
  from no_text_shape_continues [OF a1 a2 a3 a4 a5 a6]
  have ra: "extractResponseText exampleConversion a = Inr (Stringified (Obj [(''thought'', Bool True)]))"
    unfolding a7 by (simp only: if_True nullish.simps if_False)
  from no_text_shape_continues [OF b1 b2 b3 b4 b5 b6]
  have rb: "extractResponseText exampleConversion b = Inr (Stringified b)"
    by (simp only: if_False)
  show ?thesis
    using a1 ra b1 rb unfolding a_def b_def by (intro conjI) assumption+
qed

text \<open>
  Where one of the earlier checks fails, its error is the result, whatever the rest of
  the response holds.
\<close>

lemma earlier_check_fails:
  assumes "\<not> earlierChecksPass data"
  shows "extractResponseText toNumber data
           \<in> {Inl TypeError, Inl ApiError, Inl NoCandidates, Inl Truncated, Inl NoContent}"
proof (cases "nullish data")
  case True
  then show ?thesis
    by (simp add: extractResponseText_def andThen_def nullish_getProp_error)
next
  case d: False
  then have g: "getProp data ''error'' = Inr (field data ''error'')"
    by (rule nullish_getProp)
  show ?thesis
  proof (cases "truthy (field data ''error'')")
    case True
    with g show ?thesis by (simp add: extractResponseText_def andThen_def)
  next
    case e: False
    show ?thesis
    proof (cases "truthy (field data ''candidates'')
                   \<and> field (field data ''candidates'') ''length'' \<noteq> Num 0")
      case False
      with g e show ?thesis
        by (auto simp: extractResponseText_def andThen_def Let_def)
    next
      case c: True
      then have "truthy (field data ''candidates'')" ..
      from truthy_index0 [OF this]
      have i: "index0 (field data ''candidates'') = Inr (firstCandidate data)"
        by (auto simp: firstCandidate_def)
      show ?thesis
      proof (cases "nullish (firstCandidate data)")
        case True
        with g e c i show ?thesis
          by (simp add: extractResponseText_def andThen_def Let_def nullish_getProp_error)
      next
        case n: False
        then have f: "getProp (firstCandidate data) ''finishReason''
                       = Inr (field (firstCandidate data) ''finishReason'')"
          by (rule nullish_getProp)
        from assms d e c n
        have "field (firstCandidate data) ''finishReason'' = Str ''MAX_TOKENS''
              \<or> \<not> truthy (field (firstCandidate data) ''content'')"
          by (auto simp: earlierChecksPass_def)
        with g e c i f show ?thesis
          by (auto simp: extractResponseText_def andThen_def Let_def)
      qed
    qed
  qed
qed

text \<open>
  For parts that are an array, or are missing, the test of line 226 needs no
  conversion: the content has parts exactly when the array is not empty.
\<close>

lemma hasParts_array:
  "field content ''parts'' = Arr ps \<Longrightarrow> hasParts toNumber content = Inr (ps \<noteq> [])"
  by (simp add: hasParts_def field_def)

lemma hasParts_missing:
  "\<not> truthy (field content ''parts'') \<Longrightarrow> hasParts toNumber content = Inr False"
  by (simp add: hasParts_def)

text \<open>
  With such a response the request goes on to the end: the serialized part is
  scanned and parsed like a text of the model, and a summary made of the defaults is
  returned.
\<close>

lemma processDischargeSummary_serialized_part:
  assumes \<open>stringify (Obj [(''thought'', Bool True)]) = ''{"thought":true}''\<close>
    and \<open>parse ''{"thought":true}'' = Some (Obj [(''thought'', Bool True)])\<close>
  shows \<open>processDischargeSummary parse stringify toNumber
           (Body (Obj [(''candidates'',
              Arr [Obj [(''content'', Obj [(''parts'', Arr [Obj [(''thought'', Bool True)]])]),
                        (''finishReason'', Str ''STOP'')]])]))
         = Inr \<lparr> simpleExplanation = Str defaultExplanation,
                 whatToDo = [], whatNotToDo = [], redFlags = [], medications = [],
                 followUp = [],
                 expectedCourse = Str defaultCourse,
                 quizQuestions = None \<rparr>\<close>
proof -
  have r: \<open>extractResponseText toNumber
           (Obj [(''candidates'',
              Arr [Obj [(''content'', Obj [(''parts'', Arr [Obj [(''thought'', Bool True)]])]),
                        (''finishReason'', Str ''STOP'')]])])
         = Inr (Stringified (Obj [(''thought'', Bool True)]))\<close>
    by code_simp
  have j: \<open>extractJsonText ''{"thought":true}'' = Inr ''{"thought":true}''\<close>
    by code_simp
  have n: \<open>normalizeParsed (Obj [(''thought'', Bool True)])
            = Inr \<lparr> simpleExplanation = Str defaultExplanation,
                 whatToDo = [], whatNotToDo = [], redFlags = [], medications = [],
                 followUp = [],
                 expectedCourse = Str defaultCourse,
                 quizQuestions = None \<rparr>\<close>
    by code_simp
  show ?thesis
    unfolding processDischargeSummary_def httpResponse.case r
    by (simp only: andThen_def sum.case responseText.case assms j option.case n)
qed

end
